theory Spec2Isabelle
  imports Main "HOL-Library.AList"
begin

section \<open>Python values, exceptions and string primitives\<close>

text \<open>
  The collector of \<^verbatim>\<open>src/ir_collect.py\<close> keeps everything it gathers in one dictionary
  \<^verbatim>\<open>self.data\<close> of strings, integers, lists and nested dictionaries. A dictionary
  is an association list in insertion order (Python dictionaries keep that order and
  \<^verbatim>\<open>json.dump\<close> writes it); \<^verbatim>\<open>d[k] = v\<close> is \<^const>\<open>AList.update\<close>, which overwrites
  in place or appends. A character stands for a code point below 256.
\<close>

datatype pyval =
    PStr string
  | PInt int
  | PList "pyval list"
  | PDict "(string \<times> pyval) list"

type_synonym pydict = "(string \<times> pyval) list"

datatype exc =
    TimeoutExpired
  | OSError
  | FileNotFoundError
  | PermissionError
  | NotADirectoryError
  | ValueError
  | UnicodeDecodeError
  | KeyError

text \<open>A computation that may raise: \<open>Inl e\<close> is the exception \<open>e\<close> propagating.\<close>

type_synonym 'a res = "exc + 'a"

fun and_then :: "'a res \<Rightarrow> ('a \<Rightarrow> 'b res) \<Rightarrow> 'b res" where
  "and_then (Inl e) f = Inl e"
| "and_then (Inr v) f = f v"

text \<open>\<^verbatim>\<open>try: body  except: handler\<close> with a bare \<^verbatim>\<open>except\<close>: every exception is caught.\<close>

fun try_except :: "'a res \<Rightarrow> 'a res \<Rightarrow> 'a res" where
  "try_except (Inl e) handler = handler"
| "try_except (Inr v) handler = Inr v"

definition newline :: char where
  "newline = CHR 0x0A"

text \<open>\<^verbatim>\<open>str.isspace\<close> on the code points below 256.\<close>

definition isspace :: "char \<Rightarrow> bool" where
  "isspace c \<longleftrightarrow> of_char c \<in> {9, 10, 11, 12, 13, 28, 29, 30, 31, 32, 133, 160 :: nat}"

definition lstrip :: "string \<Rightarrow> string" where
  "lstrip s = dropWhile isspace s"

definition rstrip :: "string \<Rightarrow> string" where
  "rstrip s = rev (dropWhile isspace (rev s))"

definition strip :: "string \<Rightarrow> string" where
  "strip s = rstrip (lstrip s)"

text \<open>\<^verbatim>\<open>s.split(c)\<close> for a one-character separator: one more piece than separators.\<close>

fun split_on :: "char \<Rightarrow> string \<Rightarrow> string list" where
  "split_on c [] = [[]]"
| "split_on c (x # xs) =
     (if x = c then [] # split_on c xs
      else (case split_on c xs of [] \<Rightarrow> [[x]] | w # ws \<Rightarrow> (x # w) # ws))"

text \<open>
  \<^verbatim>\<open>s.split(None, maxsplit)\<close>: runs of whitespace separate the words; after
  \<open>maxsplit\<close> words the rest of the string, its leading whitespace skipped and its tail
  kept as it is, is the last piece.
\<close>

fun split_ws :: "nat \<Rightarrow> string \<Rightarrow> string list" where
  "split_ws 0 s = (let r = dropWhile isspace s in if r = [] then [] else [r])"
| "split_ws (Suc n) s =
     (let r = dropWhile isspace s in
      if r = [] then []
      else takeWhile (\<lambda>c. \<not> isspace c) r # split_ws n (dropWhile (\<lambda>c. \<not> isspace c) r))"

text \<open>\<^verbatim>\<open>s.split()\<close>: no limit; a string of \<open>n\<close> characters has fewer than \<open>n + 1\<close> words.\<close>

definition split_all :: "string \<Rightarrow> string list" where
  "split_all s = split_ws (length s) s"

fun startswith :: "string \<Rightarrow> string \<Rightarrow> bool" where
  "startswith s [] = True"
| "startswith [] (p # ps) = False"
| "startswith (c # cs) (p # ps) = (c = p \<and> startswith cs ps)"

text \<open>\<^verbatim>\<open>sub in s\<close>.\<close>

fun contains :: "string \<Rightarrow> string \<Rightarrow> bool" where
  "contains [] sub = (sub = [])"
| "contains (c # cs) sub = (startswith (c # cs) sub \<or> contains cs sub)"

text \<open>Iterating over a text file: the lines, each with its terminating newline.\<close>

fun readlines :: "string \<Rightarrow> string list" where
  "readlines [] = []"
| "readlines (c # cs) =
     (if c = newline then [c] # readlines cs
      else (case readlines cs of [] \<Rightarrow> [[c]] | l # ls \<Rightarrow> (c # l) # ls))"

text \<open>
  \<^verbatim>\<open>int(s)\<close>: surrounding whitespace is dropped, one sign is allowed, then decimal
  digits, single underscores allowed between digits; anything else is a
  \<^verbatim>\<open>ValueError\<close>. The whitespace \<^verbatim>\<open>int\<close> drops is tab to carriage return, the
  space and, beyond ASCII, the spaces of Unicode: not the separators U+001C to U+001F,
  which \<^verbatim>\<open>str.strip\<close> drops. A text of more than 4300 digits is refused, the limit
  CPython sets by default.
\<close>

definition int_space :: "char \<Rightarrow> bool" where
  "int_space c \<longleftrightarrow> of_char c \<in> {9, 10, 11, 12, 13, 32, 133, 160 :: nat}"

definition int_strip :: "string \<Rightarrow> string" where
  "int_strip s = rev (dropWhile int_space (rev (dropWhile int_space s)))"

definition int_max_str_digits :: nat where
  "int_max_str_digits = 4300"

definition is_digit :: "char \<Rightarrow> bool" where
  "is_digit c \<longleftrightarrow> 48 \<le> (of_char c :: nat) \<and> (of_char c :: nat) \<le> 57"

definition digit_val :: "char \<Rightarrow> nat" where
  "digit_val c = of_char c - 48"

fun parse_digits :: "nat \<Rightarrow> string \<Rightarrow> nat option" where
  "parse_digits acc [] = Some acc"
| "parse_digits acc (c # cs) =
     (if is_digit c then parse_digits (acc * 10 + digit_val c) cs
      else if c = CHR ''_'' then
        (case cs of [] \<Rightarrow> None | d # _ \<Rightarrow> if is_digit d then parse_digits acc cs else None)
      else None)"

definition parse_unsigned :: "string \<Rightarrow> nat option" where
  "parse_unsigned s =
     (case s of [] \<Rightarrow> None | c # _ \<Rightarrow> if is_digit c then parse_digits 0 s else None)"

definition py_int :: "string \<Rightarrow> int res" where
  "py_int s =
     (let t = int_strip s;
          r = (case t of
                 [] \<Rightarrow> None
               | c # cs \<Rightarrow>
                   if c = CHR ''-'' then map_option (\<lambda>n. - int n) (parse_unsigned cs)
                   else if c = CHR ''+'' then map_option int (parse_unsigned cs)
                   else map_option int (parse_unsigned t))
      in if length (filter is_digit t) > int_max_str_digits then Inl ValueError
         else case r of None \<Rightarrow> Inl ValueError | Some i \<Rightarrow> Inr i)"

section \<open>The host\<close>

text \<open>
  Everything the collector asks of the machine it runs on. One value of \<open>host\<close> is one
  observation of the machine: a query asked twice is answered the same way.
  \<^item> \<open>shell_run cmd\<close> is the shell running \<open>cmd\<close> for at most 30 seconds with its
    standard output captured and decoded: it raises (\<^verbatim>\<open>TimeoutExpired\<close>, an
    \<^verbatim>\<open>OSError\<close>, a decoding error) or gives the exit status and the characters
    written, line ends as the command wrote them.
  \<^item> \<open>open_read path\<close> is opening a text file: it raises, or gives the text of the lines
    the iteration over the file yields, line ends already turned into newlines. When
    decoding fails part-way, these are the lines yielded before the failure and
    \<open>read_error path\<close> is the exception the iteration then raises.
  \<^item> \<open>os_stat path\<close> gives the modification time, already in ISO format, and the size.
  \<^item> \<open>open_write path\<close> is \<open>Some e\<close> when opening the file for writing raises \<open>e\<close>.
\<close>

datatype completed_process = CompletedProcess (returncode: int) (stdout: string)

record stat_result =
  st_mtime_iso :: string
  st_size :: int

record host =
  platform_system :: string
  platform_release :: string
  platform_version :: string
  platform_machine :: string
  platform_processor :: string
  python_version :: string
  gethostname :: string
  now_isoformat :: string
  now_stamp :: string
  shell_run :: "string \<Rightarrow> completed_process res"
  path_exists :: "string \<Rightarrow> bool"
  listdir :: "string \<Rightarrow> string list res"
  open_read :: "string \<Rightarrow> string res"
  read_error :: "string \<Rightarrow> exc option"
  os_stat :: "string \<Rightarrow> stat_result res"
  mkdir :: "string \<Rightarrow> exc option"
  open_write :: "string \<Rightarrow> exc option"

definition is_linux :: "host \<Rightarrow> bool" where
  "is_linux h \<longleftrightarrow> platform_system h = ''Linux''"

section \<open>The collector\<close>

subsection \<open>\<^verbatim>\<open>subprocess.run\<close> in text mode\<close>

definition carriage_return :: char where
  "carriage_return = CHR 0x0D"

text \<open>
  Text mode on captured output: \<^verbatim>\<open>data.replace("\r\n", "\n").replace("\r", "\n")\<close>.
\<close>

fun translate_newlines :: "string \<Rightarrow> string" where
  "translate_newlines [] = []"
| "translate_newlines [c] = (if c = carriage_return then [newline] else [c])"
| "translate_newlines (c # d # cs) =
     (if c = carriage_return then
        (if d = newline then newline # translate_newlines cs
         else newline # translate_newlines (d # cs))
      else c # translate_newlines (d # cs))"

text \<open>
  \<^verbatim>\<open>subprocess.run(cmd, shell=True, capture_output=True, text=True, timeout=30)\<close>:
  what the shell gives, the output with its line ends translated. No \<^verbatim>\<open>check=True\<close>
  is passed, so a non-zero exit status is a normal return.
\<close>

definition subprocess_run :: "host \<Rightarrow> string \<Rightarrow> completed_process res" where
  "subprocess_run h cmd =
     and_then (shell_run h cmd) (\<lambda>p.
       Inr (CompletedProcess (returncode p) (translate_newlines (stdout p))))"

text \<open>
  \<^verbatim>\<open>head -n\<close> copies its input up to and including the \<open>n\<close>-th newline and drops
  the rest.
\<close>

fun head_lines :: "nat \<Rightarrow> string \<Rightarrow> string" where
  "head_lines 0 s = []"
| "head_lines (Suc n) [] = []"
| "head_lines (Suc n) (c # cs) =
     (if c = newline then c # head_lines n cs else c # head_lines (Suc n) cs)"

text \<open>
  \<^verbatim>\<open>subprocess.run(cmd + " | head -n", ...)\<close>: the shell pipes the output of
  \<open>cmd\<close> into \<^verbatim>\<open>head -n\<close>, whose exit status is the status of the pipeline; text
  mode translates the line ends of what \<^verbatim>\<open>head\<close> let through, so after it has
  counted the lines. Here \<open>shell_run h cmd\<close> is the run of \<open>cmd\<close> as the first stage of
  the pipeline: when it raises, the call raises.
\<close>

definition subprocess_run_head :: "host \<Rightarrow> string \<Rightarrow> nat \<Rightarrow> completed_process res" where
  "subprocess_run_head h cmd n =
     and_then (shell_run h cmd) (\<lambda>p.
       Inr (CompletedProcess 0 (translate_newlines (head_lines n (stdout p)))))"

subsection \<open>\<^verbatim>\<open>IRCollector.run_command\<close>\<close>

definition run_command :: "host \<Rightarrow> string \<Rightarrow> string res" where
  "run_command h cmd =
     try_except
       (and_then (subprocess_run h cmd) (\<lambda>result. Inr (stdout result)))
       (Inr '''')"

text \<open>\<^verbatim>\<open>self.run_command(cmd + " | head -n")\<close>, with the body of \<open>run_command\<close>.\<close>

definition run_command_head :: "host \<Rightarrow> string \<Rightarrow> nat \<Rightarrow> string res" where
  "run_command_head h cmd n =
     try_except
       (and_then (subprocess_run_head h cmd n) (\<lambda>result. Inr (stdout result)))
       (Inr '''')"

subsection \<open>The collector object\<close>

record ir_collector =
  output_dir :: string
  data :: pydict

definition set_item :: "ir_collector \<Rightarrow> string \<Rightarrow> pyval \<Rightarrow> ir_collector" where
  "set_item c k v = c\<lparr>data := AList.update k v (data c)\<rparr>"

definition IRCollector_init :: "host \<Rightarrow> string \<Rightarrow> ir_collector res" where
  "IRCollector_init h dir =
     (case mkdir h dir of
        Some e \<Rightarrow> Inl e
      | None \<Rightarrow>
          Inr \<lparr>output_dir = dir,
               data = [(''collection_time'', PStr (now_isoformat h)),
                       (''hostname'', PStr (gethostname h)),
                       (''platform'', PStr (platform_system h))]\<rparr>)"

subsection \<open>\<^verbatim>\<open>collect_system_info\<close>\<close>

definition system_info :: "host \<Rightarrow> pyval res" where
  "system_info h =
     (let info = [(''os'', PStr (platform_system h)),
                  (''os_release'', PStr (platform_release h)),
                  (''os_version'', PStr (platform_version h)),
                  (''machine'', PStr (platform_machine h)),
                  (''processor'', PStr (platform_processor h)),
                  (''hostname'', PStr (gethostname h)),
                  (''python_version'', PStr (python_version h))]
      in if is_linux h then
           and_then (run_command h ''uptime -p'') (\<lambda>uptime.
           and_then (run_command h ''uname -r'') (\<lambda>kernel.
             Inr (PDict (AList.update ''kernel'' (PStr (strip kernel))
                          (AList.update ''uptime'' (PStr (strip uptime)) info)))))
         else Inr (PDict info))"

definition collect_system_info :: "host \<Rightarrow> ir_collector \<Rightarrow> ir_collector res" where
  "collect_system_info h c =
     and_then (system_info h) (\<lambda>info. Inr (set_item c ''system_info'' info))"

subsection \<open>\<^verbatim>\<open>collect_processes\<close>\<close>

text \<open>One turn of the loop over the lines of \<^verbatim>\<open>ps aux --no-headers\<close>.\<close>

definition process_line :: "string \<Rightarrow> pyval list \<Rightarrow> pyval list" where
  "process_line line processes =
     (if line \<noteq> [] then
        (let parts = split_ws 10 line in
         if length parts \<ge> 11 then
           processes @ [PDict [(''user'', PStr (parts ! 0)),
                               (''pid'', PStr (parts ! 1)),
                               (''cpu'', PStr (parts ! 2)),
                               (''mem'', PStr (parts ! 3)),
                               (''command'', PStr (take 100 (parts ! 10)))]]
         else processes)
      else processes)"

definition processes_of_output :: "string \<Rightarrow> pyval list" where
  "processes_of_output output = fold process_line (split_on newline (strip output)) []"

definition processes_list :: "host \<Rightarrow> pyval list res" where
  "processes_list h =
     (if is_linux h then
        and_then (run_command h ''ps aux --no-headers'') (\<lambda>output.
          Inr (processes_of_output output))
      else Inr [])"

definition collect_processes :: "host \<Rightarrow> ir_collector \<Rightarrow> ir_collector res" where
  "collect_processes h c =
     and_then (processes_list h) (\<lambda>processes.
       Inr (set_item c ''processes'' (PList (take 100 processes))))"

subsection \<open>\<^verbatim>\<open>collect_network\<close> and \<^verbatim>\<open>get_interfaces\<close>\<close>

definition connection_line :: "string \<Rightarrow> pyval list \<Rightarrow> pyval list" where
  "connection_line line connections =
     (if line \<noteq> [] then
        (let parts = split_all line in
         if length parts \<ge> 5 then
           connections @ [PDict [(''proto'', PStr (parts ! 0)),
                                 (''local'', PStr (parts ! 4)),
                                 (''remote'', PStr (if length parts > 5 then parts ! 5 else [])),
                                 (''state'', PStr (if length parts > 1 then parts ! 1 else []))]]
         else connections)
      else connections)"

definition connections_of_output :: "string \<Rightarrow> pyval list" where
  "connections_of_output output =
     fold connection_line (drop 1 (split_on newline (strip output))) []"

definition connections_list :: "host \<Rightarrow> pyval list res" where
  "connections_list h =
     (if is_linux h then
        and_then (run_command_head h ''ss -tunapl 2>/dev/null'' 100) (\<lambda>output.
          Inr (connections_of_output output))
      else Inr [])"

text \<open>
  The loop of \<^verbatim>\<open>get_interfaces\<close> carries the finished records and the record being
  built, \<^verbatim>\<open>current\<close>, which starts as the empty dictionary.
\<close>

definition interface_line :: "string \<Rightarrow> pyval list \<times> pydict \<Rightarrow> pyval list \<times> pydict" where
  "interface_line line st =
     (case st of (interfaces, current) \<Rightarrow>
        if line \<noteq> [] \<and> \<not> startswith line '' '' then
          (let interfaces' = (if current \<noteq> [] then interfaces @ [PDict current] else interfaces);
               parts = split_on CHR '':'' line
           in (interfaces',
               [(''name'', PStr (if length parts > 1 then strip (parts ! 1) else []))]))
        else if contains line ''inet '' then
          (let parts = split_all (strip line)
           in (interfaces,
               AList.update ''ipv4'' (PStr (if length parts > 1 then parts ! 1 else [])) current))
        else (interfaces, current))"

text \<open>After the loop: \<^verbatim>\<open>if current: interfaces.append(current)\<close>.\<close>

definition finish_interfaces :: "pyval list \<times> pydict \<Rightarrow> pyval list" where
  "finish_interfaces st =
     (case st of (interfaces, current) \<Rightarrow>
        if current \<noteq> [] then interfaces @ [PDict current] else interfaces)"

definition interfaces_of_output :: "string \<Rightarrow> pyval list" where
  "interfaces_of_output output =
     finish_interfaces (fold interface_line (split_on newline output) ([], []))"

definition get_interfaces :: "host \<Rightarrow> pyval list res" where
  "get_interfaces h =
     (if is_linux h then
        and_then (run_command h ''ip addr show'') (\<lambda>output.
          Inr (interfaces_of_output output))
      else Inr [])"

definition collect_network :: "host \<Rightarrow> ir_collector \<Rightarrow> ir_collector res" where
  "collect_network h c =
     and_then (connections_list h) (\<lambda>connections.
     and_then (run_command h ''ss -tlnp 2>/dev/null'') (\<lambda>listening.
     and_then (get_interfaces h) (\<lambda>interfaces.
       Inr (set_item c ''network''
              (PDict [(''connections'', PList connections),
                      (''interfaces'', PList interfaces)])))))"

subsection \<open>\<^verbatim>\<open>collect_users\<close>\<close>

definition account_record :: "string list \<Rightarrow> pyval" where
  "account_record parts =
     PDict [(''username'', PStr (parts ! 0)),
            (''uid'', PStr (parts ! 2)),
            (''gid'', PStr (parts ! 3)),
            (''home'', PStr (parts ! 5)),
            (''shell'', PStr (parts ! 6))]"

text \<open>
  The loop over the lines of \<^verbatim>\<open>/etc/passwd\<close> runs inside one \<^verbatim>\<open>try\<close>. The list
  \<^verbatim>\<open>users\<close> lives outside it, so when \<^verbatim>\<open>int(parts[2])\<close> raises, the loop ends and
  the records appended so far stay: the result is the list and the exception, if any.
\<close>

fun passwd_loop :: "string list \<Rightarrow> pyval list \<Rightarrow> pyval list \<times> exc option" where
  "passwd_loop [] users = (users, None)"
| "passwd_loop (line # rest) users =
     (let parts = split_on CHR '':'' (strip line) in
      if length parts \<ge> 7 then
        (case py_int (parts ! 2) of
           Inl e \<Rightarrow> (users, Some e)
         | Inr uid \<Rightarrow>
             passwd_loop rest
               (if uid \<ge> 1000 \<or> uid = 0 then users @ [account_record parts] else users))
      else passwd_loop rest users)"

definition accounts_of_passwd :: "string \<Rightarrow> pyval list" where
  "accounts_of_passwd text = fst (passwd_loop (readlines text) [])"

text \<open>
  The \<^verbatim>\<open>try\<close> block: the list it leaves and the exception it ends with, if any. The
  file is read line by line, so an error of the iteration comes after the lines read
  before it have been handled.
\<close>

definition read_passwd :: "host \<Rightarrow> pyval list \<times> exc option" where
  "read_passwd h =
     (case open_read h ''/etc/passwd'' of
        Inl e \<Rightarrow> ([], Some e)
      | Inr text \<Rightarrow>
          (case passwd_loop (readlines text) [] of
             (users, Some e) \<Rightarrow> (users, Some e)
           | (users, None) \<Rightarrow> (users, read_error h ''/etc/passwd'')))"

text \<open>\<^verbatim>\<open>except: pass\<close>: whatever the block raised is dropped, the list stays.\<close>

definition accounts_list :: "host \<Rightarrow> pyval list" where
  "accounts_list h = (if is_linux h then fst (read_passwd h) else [])"

definition collect_users :: "host \<Rightarrow> ir_collector \<Rightarrow> ir_collector res" where
  "collect_users h c =
     (let users = accounts_list h in
      and_then (if is_linux h then run_command h ''who'' else Inr []) (\<lambda>logged_in.
      and_then (if is_linux h then
                  and_then (run_command h ''who'') (\<lambda>out.
                    Inr (map PStr (split_on newline (strip out))))
                else Inr []) (\<lambda>sessions.
        Inr (set_item c ''users''
               (PDict [(''accounts'', PList users), (''logged_in'', PList sessions)])))))"

subsection \<open>\<^verbatim>\<open>collect_scheduled_tasks\<close>\<close>

text \<open>
  The loop over the cron directories: \<^verbatim>\<open>os.listdir\<close> is called outside any
  \<^verbatim>\<open>try\<close>, so what it raises leaves the collector.
\<close>

fun cron_dirs_loop :: "host \<Rightarrow> string list \<Rightarrow> pyval list \<Rightarrow> pyval list res" where
  "cron_dirs_loop h [] tasks = Inr tasks"
| "cron_dirs_loop h (cron_dir # rest) tasks =
     (if path_exists h cron_dir then
        and_then (listdir h cron_dir) (\<lambda>files.
          cron_dirs_loop h rest
            (tasks @ [PDict [(''type'', PStr cron_dir), (''files'', PList (map PStr files))]]))
      else cron_dirs_loop h rest tasks)"

definition cron_dirs :: "string list" where
  "cron_dirs = [''/etc/cron.d'', ''/etc/cron.daily'', ''/etc/cron.hourly'']"

definition scheduled_tasks :: "host \<Rightarrow> pyval list res" where
  "scheduled_tasks h =
     (if is_linux h then
        and_then (run_command h ''cat /etc/crontab 2>/dev/null'') (\<lambda>crontab.
        let tasks1 = (if crontab \<noteq> [] then
                        [PDict [(''type'', PStr ''system_crontab''),
                                (''content'', PStr (take 1000 crontab))]]
                      else []) in
        and_then (run_command h ''crontab -l 2>/dev/null'') (\<lambda>user_cron.
        let tasks2 = (if user_cron \<noteq> [] then
                        tasks1 @ [PDict [(''type'', PStr ''user_crontab''),
                                         (''content'', PStr (take 1000 user_cron))]]
                      else tasks1) in
        and_then (cron_dirs_loop h cron_dirs tasks2) (\<lambda>tasks3.
        and_then (run_command_head h ''systemctl list-timers --no-pager 2>/dev/null'' 20) (\<lambda>timers.
          Inr (if timers \<noteq> [] then
                 tasks3 @ [PDict [(''type'', PStr ''systemd_timers''), (''content'', PStr timers)]]
               else tasks3)))))
      else Inr [])"

definition collect_scheduled_tasks :: "host \<Rightarrow> ir_collector \<Rightarrow> ir_collector res" where
  "collect_scheduled_tasks h c =
     and_then (scheduled_tasks h) (\<lambda>tasks. Inr (set_item c ''scheduled_tasks'' (PList tasks)))"

subsection \<open>\<^verbatim>\<open>collect_autostart\<close>\<close>

definition autostart_entries :: "host \<Rightarrow> pyval list res" where
  "autostart_entries h =
     (if is_linux h then
        and_then (run_command_head h
          ''systemctl list-unit-files --type=service --state=enabled --no-pager 2>/dev/null'' 50)
          (\<lambda>services.
        let autostart1 = (if services \<noteq> [] then
                            [PDict [(''type'', PStr ''systemd_enabled''),
                                    (''content'', PStr services)]]
                          else []) in
        and_then (if path_exists h ''/etc/init.d'' then
                    and_then (listdir h ''/etc/init.d'') (\<lambda>files.
                      Inr (autostart1 @ [PDict [(''type'', PStr ''initd''),
                                                (''files'', PList (map PStr files))]]))
                  else Inr autostart1) (\<lambda>autostart2.
        and_then (run_command h ''cat /etc/rc.local 2>/dev/null'') (\<lambda>rclocal.
          Inr (if rclocal \<noteq> [] then
                 autostart2 @ [PDict [(''type'', PStr ''rc.local''),
                                      (''content'', PStr (take 500 rclocal))]]
               else autostart2))))
      else Inr [])"

definition collect_autostart :: "host \<Rightarrow> ir_collector \<Rightarrow> ir_collector res" where
  "collect_autostart h c =
     and_then (autostart_entries h) (\<lambda>autostart.
       Inr (set_item c ''autostart'' (PList autostart)))"

subsection \<open>\<^verbatim>\<open>collect_recent_files\<close>\<close>

text \<open>Each \<^verbatim>\<open>os.stat\<close> has a \<^verbatim>\<open>try\<close> of its own: a file that fails is passed over.\<close>

definition recent_line :: "host \<Rightarrow> string \<Rightarrow> pyval list \<Rightarrow> pyval list" where
  "recent_line h line recent =
     (if line \<noteq> [] then
        (case os_stat h line of
           Inl e \<Rightarrow> recent
         | Inr st \<Rightarrow>
             recent @ [PDict [(''path'', PStr line),
                              (''mtime'', PStr (st_mtime_iso st)),
                              (''size'', PInt (st_size st))]])
      else recent)"

definition recent_list :: "host \<Rightarrow> pyval list res" where
  "recent_list h =
     (if is_linux h then
        and_then (run_command_head h
          ''find /home /tmp /var/log -mtime -1 -type f 2>/dev/null'' 100) (\<lambda>output.
          Inr (fold (recent_line h) (split_on newline (strip output)) []))
      else Inr [])"

definition collect_recent_files :: "host \<Rightarrow> ir_collector \<Rightarrow> ir_collector res" where
  "collect_recent_files h c =
     and_then (recent_list h) (\<lambda>recent.
       Inr (set_item c ''recent_files'' (PList (take 50 recent))))"

subsection \<open>\<^verbatim>\<open>collect_logs\<close>\<close>

definition log_files :: "string list" where
  "log_files = [''/var/log/auth.log'', ''/var/log/syslog'', ''/var/log/secure'',
                ''/var/log/messages'']"

definition tail_command :: "string \<Rightarrow> string" where
  "tail_command log_file = ''tail -50 '' @ log_file @ '' 2>/dev/null''"

fun logs_loop :: "host \<Rightarrow> string list \<Rightarrow> pydict \<Rightarrow> pydict res" where
  "logs_loop h [] logs = Inr logs"
| "logs_loop h (log_file # rest) logs =
     (if path_exists h log_file then
        and_then (run_command h (tail_command log_file)) (\<lambda>output.
          logs_loop h rest
            (if output \<noteq> [] then AList.update log_file (PStr output) logs else logs))
      else logs_loop h rest logs)"

definition logs_dict :: "host \<Rightarrow> pydict res" where
  "logs_dict h = (if is_linux h then logs_loop h log_files [] else Inr [])"

definition collect_logs :: "host \<Rightarrow> ir_collector \<Rightarrow> ir_collector res" where
  "collect_logs h c =
     and_then (logs_dict h) (\<lambda>logs. Inr (set_item c ''logs'' (PDict logs)))"

subsection \<open>\<^verbatim>\<open>save_results\<close>: \<^verbatim>\<open>json.dump(self.data, f, indent=2, default=str)\<close>\<close>

definition hex_digit :: "nat \<Rightarrow> char" where
  "hex_digit n = (if n < 10 then char_of (48 + n) else char_of (87 + n))"

text \<open>
  The string encoder with \<^verbatim>\<open>ensure_ascii\<close>: the quote and the backslash are escaped,
  backspace, form feed, newline, carriage return and tab have their letter, and every
  other character outside the printable ASCII range is written \<^verbatim>\<open>\u00xx\<close>.
\<close>

definition json_escape :: "char \<Rightarrow> string" where
  "json_escape c =
     (let n = (of_char c :: nat) in
      if n = 34 then [CHR 0x5C, CHR 0x22]
      else if n = 92 then [CHR 0x5C, CHR 0x5C]
      else if n = 8 then [CHR 0x5C, CHR ''b'']
      else if n = 12 then [CHR 0x5C, CHR ''f'']
      else if n = 10 then [CHR 0x5C, CHR ''n'']
      else if n = 13 then [CHR 0x5C, CHR ''r'']
      else if n = 9 then [CHR 0x5C, CHR ''t'']
      else if 32 \<le> n \<and> n \<le> 126 then [c]
      else [CHR 0x5C, CHR ''u'', CHR ''0'', CHR ''0'', hex_digit (n div 16), hex_digit (n mod 16)])"

definition json_string :: "string \<Rightarrow> string" where
  "json_string s = [CHR 0x22] @ concat (map json_escape s) @ [CHR 0x22]"

function show_nat :: "nat \<Rightarrow> string" where
  "show_nat n = (if n < 10 then [char_of (48 + n)] else show_nat (n div 10) @ [char_of (48 + n mod 10)])"
  by pat_completeness auto
termination
  by (relation "measure id") auto

definition show_int :: "int \<Rightarrow> string" where
  "show_int i = (if i < 0 then CHR ''-'' # show_nat (nat (- i)) else show_nat (nat i))"

definition newline_indent :: "nat \<Rightarrow> string" where
  "newline_indent level = newline # replicate (2 * level) CHR '' ''"

fun join :: "string \<Rightarrow> string list \<Rightarrow> string" where
  "join sep [] = []"
| "join sep [x] = x"
| "join sep (x # y # ys) = x @ sep @ join sep (y # ys)"

text \<open>\<open>json_encode level v\<close>: the text of \<open>v\<close> when it sits \<open>level\<close> containers deep.\<close>

fun json_encode :: "nat \<Rightarrow> pyval \<Rightarrow> string" where
  "json_encode level (PStr s) = json_string s"
| "json_encode level (PInt i) = show_int i"
| "json_encode level (PList xs) =
     (if xs = [] then ''[]''
      else ''['' @ newline_indent (Suc level)
           @ join ('','' @ newline_indent (Suc level)) (map (json_encode (Suc level)) xs)
           @ newline_indent level @ '']'')"
| "json_encode level (PDict kvs) =
     (if kvs = [] then ''{}''
      else ''{'' @ newline_indent (Suc level)
           @ join ('','' @ newline_indent (Suc level))
               (map (\<lambda>kv. json_string (fst kv) @ '': '' @ json_encode (Suc level) (snd kv)) kvs)
           @ newline_indent level @ ''}'')"

text \<open>
  \<^verbatim>\<open>str(Path(output_dir) / filename)\<close> on a POSIX system: empty and \<^verbatim>\<open>.\<close>
  components of the directory are dropped, the root is \<^verbatim>\<open>//\<close> when the directory
  begins with exactly two slashes, \<^verbatim>\<open>/\<close> when it begins with one or with three or
  more. The file name holds the time stamp of the host's clock and no slash.
\<close>

definition posix_root :: "string \<Rightarrow> string" where
  "posix_root dir =
     (if startswith dir ''//'' \<and> \<not> startswith dir ''///'' then ''//''
      else if startswith dir ''/'' then ''/''
      else [])"

definition posix_parts :: "string \<Rightarrow> string list" where
  "posix_parts dir = filter (\<lambda>part. part \<noteq> [] \<and> part \<noteq> ''.'') (split_on CHR ''/'' dir)"

definition result_path :: "host \<Rightarrow> ir_collector \<Rightarrow> string" where
  "result_path h c =
     posix_root (output_dir c)
       @ join ''/'' (posix_parts (output_dir c) @ [''ir_collection_'' @ now_stamp h @ ''.json''])"

text \<open>
  \<open>save_results\<close> gives the path of the file and the text written to it; the collector
  object is only read.
\<close>

definition save_results :: "host \<Rightarrow> ir_collector \<Rightarrow> (string \<times> string) res" where
  "save_results h c =
     (let filepath = result_path h c in
      case open_write h filepath of
        Some e \<Rightarrow> Inl e
      | None \<Rightarrow> Inr (filepath, json_encode 0 (PDict (data c))))"

subsection \<open>\<^verbatim>\<open>run_collection\<close>\<close>

text \<open>\<^verbatim>\<open>d[k]\<close> read: a missing key raises \<^verbatim>\<open>KeyError\<close>.\<close>

definition getitem :: "pydict \<Rightarrow> string \<Rightarrow> pyval res" where
  "getitem d k = (case map_of d k of None \<Rightarrow> Inl KeyError | Some v \<Rightarrow> Inr v)"

text \<open>
  The banner reads \<^verbatim>\<open>self.data['hostname']\<close> and \<^verbatim>\<open>self.data['platform']\<close>; then
  come the eight collectors in the order of the source, then the file. The result is the
  collector object as it is when \<open>run_collection\<close> returns, and the file written.
\<close>

definition run_collectors :: "host \<Rightarrow> ir_collector \<Rightarrow> ir_collector res" where
  "run_collectors h c0 =
     and_then (collect_system_info h c0) (\<lambda>c1.
     and_then (collect_processes h c1) (\<lambda>c2.
     and_then (collect_network h c2) (\<lambda>c3.
     and_then (collect_users h c3) (\<lambda>c4.
     and_then (collect_scheduled_tasks h c4) (\<lambda>c5.
     and_then (collect_autostart h c5) (\<lambda>c6.
     and_then (collect_recent_files h c6) (\<lambda>c7.
       collect_logs h c7)))))))"

definition run_collection :: "host \<Rightarrow> ir_collector \<Rightarrow> (ir_collector \<times> string \<times> string) res" where
  "run_collection h c0 =
     and_then (getitem (data c0) ''hostname'') (\<lambda>hostname.
     and_then (getitem (data c0) ''platform'') (\<lambda>platform.
     and_then (run_collectors h c0) (\<lambda>c8.
     and_then (save_results h c8) (\<lambda>written.
       Inr (c8, written)))))"

text \<open>\<^verbatim>\<open>main\<close> without \<^verbatim>\<open>--demo\<close>: build the collector, run the collection.\<close>

definition main_collect :: "host \<Rightarrow> string \<Rightarrow> (ir_collector \<times> string \<times> string) res" where
  "main_collect h dir = and_then (IRCollector_init h dir) (run_collection h)"

section \<open>Concrete hosts\<close>

text \<open>
  A Linux machine on which every command prints nothing and exits with status 0 and no
  file exists. The hosts below change some of its answers.
\<close>

definition quiet_host :: host where
  "quiet_host =
     \<lparr>platform_system = ''Linux'', platform_release = ''6.1.0'', platform_version = ''#1 SMP'',
      platform_machine = ''x86_64'', platform_processor = '''', python_version = ''3.11.2'',
      gethostname = ''ir-host'', now_isoformat = ''2024-01-15T10:30:45'',
      now_stamp = ''20240115_103045'',
      shell_run = (\<lambda>cmd. Inr (CompletedProcess 0 '''')),
      path_exists = (\<lambda>p. False),
      listdir = (\<lambda>p. Inl FileNotFoundError),
      open_read = (\<lambda>p. Inl FileNotFoundError),
      read_error = (\<lambda>p. None),
      os_stat = (\<lambda>p. Inl FileNotFoundError),
      mkdir = (\<lambda>p. None),
      open_write = (\<lambda>p. None)\<rparr>"

text \<open>A shell in which \<^verbatim>\<open>echo hi; exit 3\<close> prints a line and exits with status 3.\<close>

definition exit3_host :: host where
  "exit3_host =
     quiet_host\<lparr>shell_run := (\<lambda>cmd.
       if cmd = ''echo hi; exit 3'' then Inr (CompletedProcess 3 ''hi\<newline>'')
       else Inr (CompletedProcess 0 ''''))\<rparr>"

text \<open>
  \<^verbatim>\<open>/etc/cron.d\<close> exists and the user running the collector may not list it.
\<close>

definition locked_cron_host :: host where
  "locked_cron_host =
     quiet_host\<lparr>path_exists := (\<lambda>p. p = ''/etc/cron.d''),
                listdir := (\<lambda>p. if p = ''/etc/cron.d'' then Inl PermissionError
                                 else Inl FileNotFoundError)\<rparr>"

text \<open>
  A small Linux machine: two processes and a line \<^verbatim>\<open>ps\<close> cut short, one socket, two
  interfaces, four account lines, one cron directory, two recent files of which one is gone
  by the time it is examined, one readable log; \<^verbatim>\<open>uname\<close> times out.
\<close>

definition demo_host :: host where
  "demo_host = quiet_host\<lparr>
     shell_run := (\<lambda>cmd.
       if cmd = ''ps aux --no-headers'' then Inr (CompletedProcess 0
         ''root 1 0.0 0.1 100 200 ? Ss 10:00 0:01 /sbin/init splash\<newline>bad line\<newline>bob 7 0.0 0.1 100 200 ? Ss 10:00 0:01 vi a  b\<newline>'')
       else if cmd = ''ss -tunapl 2>/dev/null'' then Inr (CompletedProcess 0
         ''Netid State Recv-Q Send-Q Local Peer\<newline>tcp LISTEN 0 128 0.0.0.0:22 0.0.0.0:* users:x\<newline>'')
       else if cmd = ''ip addr show'' then Inr (CompletedProcess 0
         ''1: lo: <LOOPBACK>\<newline>    inet 127.0.0.1/8 scope host lo\<newline>2: eth0: <UP>\<newline>    inet6 fe80::1/64\<newline>'')
       else if cmd = ''who'' then Inr (CompletedProcess 0 ''bob tty1\<newline>'')
       else if cmd = ''crontab -l 2>/dev/null'' then Inr (CompletedProcess 1 '''')
       else if cmd = ''cat /etc/crontab 2>/dev/null'' then Inr (CompletedProcess 0 ''17 * * * * root run-parts\<newline>'')
       else if cmd = ''systemctl list-unit-files --type=service --state=enabled --no-pager 2>/dev/null''
         then Inr (CompletedProcess 0 ''UNIT FILE STATE\<newline>ssh.service enabled\<newline>'')
       else if cmd = ''cat /etc/rc.local 2>/dev/null'' then Inr (CompletedProcess 0 ''exit 0\<newline>'')
       else if cmd = ''find /home /tmp /var/log -mtime -1 -type f 2>/dev/null''
         then Inr (CompletedProcess 0 ''/tmp/a\<newline>/tmp/b\<newline>'')
       else if cmd = ''tail -50 /var/log/syslog 2>/dev/null'' then Inr (CompletedProcess 0 ''line\<newline>'')
       else if cmd = ''uname -r'' then Inl TimeoutExpired
       else Inr (CompletedProcess 0 '''')),
     path_exists := (\<lambda>p. p = ''/etc/cron.d'' \<or> p = ''/var/log/syslog'' \<or> p = ''/var/log/auth.log''),
     listdir := (\<lambda>p. if p = ''/etc/cron.d'' then Inr [''e2scrub_all''] else Inl FileNotFoundError),
     open_read := (\<lambda>p.
       if p = ''/etc/passwd'' then
         Inr ''root:x:0:0:root:/root:/bin/bash\<newline>daemon:x:1:1:daemon:/usr/sbin:/usr/sbin/nologin\<newline>short:x:5\<newline>alice:x:1000:1000::/home/alice:/bin/bash\<newline>''
       else Inl FileNotFoundError),
     os_stat := (\<lambda>p.
       if p = ''/tmp/a'' then Inr \<lparr>st_mtime_iso = ''2024-01-15T09:00:00'', st_size = 42\<rparr>
       else Inl FileNotFoundError)\<rparr>"

section \<open>Reading the snapshot\<close>

text \<open>\<^verbatim>\<open>v.get(k)\<close> on a value of the snapshot: \<open>None\<close> when \<open>v\<close> is no dictionary.\<close>

definition field :: "pyval \<Rightarrow> string \<Rightarrow> pyval option" where
  "field v k = (case v of PDict kvs \<Rightarrow> map_of kvs k | _ \<Rightarrow> None)"


text \<open>An interface record that carries the \<^verbatim>\<open>name\<close> key.\<close>

definition has_name :: "pyval \<Rightarrow> bool" where
  "has_name r \<longleftrightarrow> field r ''name'' \<noteq> None"


text \<open>
  The fields of an account line, and whether the loop of \<open>collect_users\<close> keeps the
  line when it reaches it: seven fields or more, and a uid that is an integer, at least
  1000 or equal to 0.
\<close>

definition passwd_fields :: "string \<Rightarrow> string list" where
  "passwd_fields line = split_on CHR '':'' (strip line)"

definition keeps_account :: "string \<Rightarrow> bool" where
  "keeps_account line \<longleftrightarrow>
     length (passwd_fields line) \<ge> 7 \<and>
     (case py_int (passwd_fields line ! 2) of Inl e \<Rightarrow> False | Inr uid \<Rightarrow> uid \<ge> 1000 \<or> uid = 0)"

section \<open>More concrete hosts\<close>

text \<open>The first line \<^verbatim>\<open>ip addr show\<close> prints is an indented address line.\<close>

definition indented_inet_host :: host where
  "indented_inet_host =
     quiet_host\<lparr>shell_run := (\<lambda>cmd.
       if cmd = ''ip addr show'' then
         Inr (CompletedProcess 0 ''    inet 10.0.0.5/24 scope global eth0\<newline>2: eth1: <UP>\<newline>    inet 10.0.1.5/24\<newline>'')
       else Inr (CompletedProcess 0 ''''))\<rparr>"


text \<open>
  An account file in NIS compatibility mode: the line \<^verbatim>\<open>+::::::\<close> has seven fields
  and an empty uid, and an ordinary user follows it.
\<close>

definition nis_passwd :: string where
  "nis_passwd = ''+::::::\<newline>alice:x:1000:1000::/home/alice:/bin/bash\<newline>''"

definition nis_host :: host where
  "nis_host =
     quiet_host\<lparr>open_read := (\<lambda>p. if p = ''/etc/passwd'' then Inr nis_passwd
                                   else Inl FileNotFoundError)\<rparr>"

text \<open>The quiet host one second later, and a collector as the constructor leaves it.\<close>

definition later_host :: host where
  "later_host = quiet_host\<lparr>now_stamp := ''20240115_103046''\<rparr>"

definition fresh_collector :: ir_collector where
  "fresh_collector =
     \<lparr>output_dir = ''./ir_collection'',
      data = [(''collection_time'', PStr ''2024-01-15T10:30:45''),
              (''hostname'', PStr ''ir-host''),
              (''platform'', PStr ''Linux'')]\<rparr>"

subsection \<open>A command whose output has carriage returns\<close>








section \<open>Properties\<close>

subsection \<open>Exceptions and commands\<close>

lemma and_then_Inr_iff: "and_then m f = Inr y \<longleftrightarrow> (\<exists>x. m = Inr x \<and> f x = Inr y)"
  by (cases m) auto

text \<open>
  C1, as the code has it. \<open>run_command\<close> never raises. It returns the empty text when
  \<^verbatim>\<open>subprocess.run\<close> raises (the command timed out or could not be executed), and
  the captured standard output whenever the command ran to its end, whatever its exit
  status: a non-zero status alone does not empty the text.
\<close>

theorem run_command_never_raises:
  "run_command h cmd =
     Inr (case subprocess_run h cmd of Inl e \<Rightarrow> '''' | Inr result \<Rightarrow> stdout result)"
  by (cases "subprocess_run h cmd") (simp_all add: run_command_def)

text \<open>
  C1 as stated fails: a command that exits with status 3 after printing a line gives
  that line, not the empty text.
\<close>

theorem run_command_nonzero_exit_counterexample:
  "subprocess_run exit3_host ''echo hi; exit 3'' = Inr (CompletedProcess 3 ''hi\<newline>'')
   \<and> returncode (CompletedProcess 3 ''hi\<newline>'') \<noteq> 0
   \<and> run_command exit3_host ''echo hi; exit 3'' = Inr ''hi\<newline>''
   \<and> run_command exit3_host ''echo hi; exit 3'' \<noteq> Inr ''''"
  by (simp add: exit3_host_def quiet_host_def run_command_def subprocess_run_def
      carriage_return_def newline_def)

lemma run_command_cases:
  "run_command h cmd =
     Inr (if isl (subprocess_run h cmd) then [] else stdout (projr (subprocess_run h cmd)))"
  by (cases "subprocess_run h cmd") (simp_all add: run_command_def)

lemma run_command_head_cases:
  "run_command_head h cmd n =
     Inr (if isl (shell_run h cmd) then []
          else translate_newlines (head_lines n (stdout (projr (shell_run h cmd)))))"
  by (cases "shell_run h cmd") (simp_all add: run_command_head_def subprocess_run_head_def)

subsection \<open>Lines and separators\<close>







lemma length_dropWhile_less:
  "r \<noteq> [] \<Longrightarrow> P (hd r) \<Longrightarrow> length (dropWhile P r) < length r"
  by (cases r) (auto simp: less_Suc_eq_le length_dropWhile_le)

text \<open>
  A string has no more words than characters, so asking \<open>split_ws\<close> for at least that
  many gives every word: \<open>split_all\<close> is the split without a limit.
\<close>

lemma split_ws_enough:
  "length s \<le> n \<Longrightarrow> length s \<le> m \<Longrightarrow> split_ws n s = split_ws m s"
proof (induction n arbitrary: s m)
  case 0
  then show ?case by (cases m) simp_all
next
  case (Suc n)
  show ?case
  proof (cases m)
    case 0
    with Suc.prems show ?thesis by simp
  next
    case (Suc m')
    define r where "r = dropWhile isspace s"
    show ?thesis
    proof (cases "r = []")
      case True
      then show ?thesis using Suc by (simp add: r_def)
    next
      case False
      then have "\<not> isspace (hd r)" unfolding r_def by (rule hd_dropWhile)
      then have "length (dropWhile (\<lambda>c. \<not> isspace c) r) < length r"
        using False length_dropWhile_less[of r "\<lambda>c. \<not> isspace c"] by simp
      moreover have "length r \<le> length s" unfolding r_def by (rule length_dropWhile_le)
      ultimately have "length (dropWhile (\<lambda>c. \<not> isspace c) r) \<le> n"
        "length (dropWhile (\<lambda>c. \<not> isspace c) r) \<le> m'"
        using Suc.prems Suc by simp_all
      from Suc.IH[OF this] show ?thesis using False Suc by (simp add: r_def Let_def)
    qed
  qed
qed

lemma split_all_unlimited: "length s \<le> n \<Longrightarrow> split_ws n s = split_all s"
  unfolding split_all_def by (rule split_ws_enough) simp_all

subsection \<open>Which collectors can raise\<close>

text \<open>
  Six collectors return on every host: each command goes through \<open>run_command\<close>, the
  account file is read inside a \<^verbatim>\<open>try\<close>, and so is each \<^verbatim>\<open>os.stat\<close>.
\<close>

lemma system_info_returns: "\<exists>v. system_info h = Inr v"
  by (simp add: system_info_def run_command_cases Let_def)

lemma processes_list_returns: "\<exists>v. processes_list h = Inr v"
  by (simp add: processes_list_def run_command_cases)

lemma connections_list_returns: "\<exists>v. connections_list h = Inr v"
  by (simp add: connections_list_def run_command_head_cases)

lemma get_interfaces_returns: "\<exists>v. get_interfaces h = Inr v"
  by (simp add: get_interfaces_def run_command_cases)

lemma recent_list_returns: "\<exists>v. recent_list h = Inr v"
  by (simp add: recent_list_def run_command_head_cases)

lemma logs_loop_returns: "\<exists>v. logs_loop h ps logs = Inr v"
  by (induction ps arbitrary: logs) (simp_all add: run_command_cases)

lemma logs_dict_returns: "\<exists>v. logs_dict h = Inr v"
  by (simp add: logs_dict_def logs_loop_returns)

lemma collect_system_info_returns: "\<exists>c'. collect_system_info h c = Inr c'"
  using system_info_returns[of h] by (auto simp: collect_system_info_def)

lemma collect_processes_returns: "\<exists>c'. collect_processes h c = Inr c'"
  using processes_list_returns[of h] by (auto simp: collect_processes_def)

lemma collect_network_returns: "\<exists>c'. collect_network h c = Inr c'"
  using connections_list_returns[of h] get_interfaces_returns[of h]
  by (auto simp: collect_network_def run_command_cases)

lemma collect_users_returns: "\<exists>c'. collect_users h c = Inr c'"
  by (simp add: collect_users_def Let_def run_command_cases)

lemma collect_recent_files_returns: "\<exists>c'. collect_recent_files h c = Inr c'"
  using recent_list_returns[of h] by (auto simp: collect_recent_files_def)

lemma collect_logs_returns: "\<exists>c'. collect_logs h c = Inr c'"
  using logs_dict_returns[of h] by (auto simp: collect_logs_def)

text \<open>
  The other two return when every directory they list can be listed; nothing else in
  them can raise.
\<close>

lemma cron_dirs_loop_returns:
  "(\<And>d. d \<in> set ds \<Longrightarrow> path_exists h d \<Longrightarrow> \<exists>fs. listdir h d = Inr fs) \<Longrightarrow>
   \<exists>v. cron_dirs_loop h ds tasks = Inr v"
proof (induction ds arbitrary: tasks)
  case Nil
  show ?case by simp
next
  case (Cons d ds)
  show ?case
  proof (cases "path_exists h d")
    case True
    then obtain fs where "listdir h d = Inr fs" using Cons.prems[of d] by auto
    moreover have "\<exists>v. cron_dirs_loop h ds (tasks @ [PDict [(''type'', PStr d), (''files'', PList (map PStr fs))]]) = Inr v"
      using Cons.IH Cons.prems by simp
    ultimately show ?thesis using True by simp
  next
    case False
    then show ?thesis using Cons.IH Cons.prems by simp
  qed
qed

lemma collect_scheduled_tasks_returns:
  assumes "\<And>d. is_linux h \<Longrightarrow> d \<in> set cron_dirs \<Longrightarrow> path_exists h d \<Longrightarrow> \<exists>fs. listdir h d = Inr fs"
  shows "\<exists>c'. collect_scheduled_tasks h c = Inr c'"
proof (cases "is_linux h")
  case False
  then show ?thesis by (simp add: collect_scheduled_tasks_def scheduled_tasks_def)
next
  case True
  have "\<exists>v. cron_dirs_loop h cron_dirs tasks = Inr v" for tasks
    using cron_dirs_loop_returns[of cron_dirs h tasks] assms[OF True] by blast
  then show ?thesis using True
    by (auto simp: collect_scheduled_tasks_def scheduled_tasks_def run_command_cases
        run_command_head_cases Let_def and_then_Inr_iff)
qed

lemma collect_autostart_returns:
  assumes "is_linux h \<Longrightarrow> path_exists h ''/etc/init.d'' \<Longrightarrow> \<exists>fs. listdir h ''/etc/init.d'' = Inr fs"
  shows "\<exists>c'. collect_autostart h c = Inr c'"
  using assms
  by (auto simp: collect_autostart_def autostart_entries_def run_command_cases
      run_command_head_cases Let_def)

lemma run_collectors_returns:
  assumes "\<And>d. is_linux h \<Longrightarrow> d \<in> set cron_dirs \<Longrightarrow> path_exists h d \<Longrightarrow> \<exists>fs. listdir h d = Inr fs"
    and "is_linux h \<Longrightarrow> path_exists h ''/etc/init.d'' \<Longrightarrow> \<exists>fs. listdir h ''/etc/init.d'' = Inr fs"
  shows "\<exists>c'. run_collectors h c = Inr c'"
proof -
  obtain c1 where 1: "collect_system_info h c = Inr c1" using collect_system_info_returns by blast
  obtain c2 where 2: "collect_processes h c1 = Inr c2" using collect_processes_returns by blast
  obtain c3 where 3: "collect_network h c2 = Inr c3" using collect_network_returns by blast
  obtain c4 where 4: "collect_users h c3 = Inr c4" using collect_users_returns by blast
  obtain c5 where 5: "collect_scheduled_tasks h c4 = Inr c5"
    using collect_scheduled_tasks_returns[of h c4] assms(1) by blast
  obtain c6 where 6: "collect_autostart h c5 = Inr c6"
    using collect_autostart_returns[of h c5] assms(2) by blast
  obtain c7 where 7: "collect_recent_files h c6 = Inr c7" using collect_recent_files_returns by blast
  obtain c8 where 8: "collect_logs h c7 = Inr c8" using collect_logs_returns by blast
  show ?thesis using 1 2 3 4 5 6 7 8 by (simp add: run_collectors_def)
qed

lemma run_collection_returns:
  assumes "\<And>d. is_linux h \<Longrightarrow> d \<in> set cron_dirs \<Longrightarrow> path_exists h d \<Longrightarrow> \<exists>fs. listdir h d = Inr fs"
    and "is_linux h \<Longrightarrow> path_exists h ''/etc/init.d'' \<Longrightarrow> \<exists>fs. listdir h ''/etc/init.d'' = Inr fs"
    and "\<And>p. open_write h p = None"
    and "map_of (data c0) ''hostname'' \<noteq> None" and "map_of (data c0) ''platform'' \<noteq> None"
  shows "\<exists>c written. run_collection h c0 = Inr (c, written)"
proof -
  obtain c where c: "run_collectors h c0 = Inr c"
    using run_collectors_returns[of h c0] assms(1,2) by blast
  have "\<exists>w. save_results h c = Inr w" using assms(3) by (simp add: save_results_def)
  moreover have "\<exists>v. getitem (data c0) ''hostname'' = Inr v"
    "\<exists>v. getitem (data c0) ''platform'' = Inr v"
    using assms(4,5) by (auto simp: getitem_def)
  ultimately show ?thesis using c by (auto simp: run_collection_def)
qed

lemma init_has_banner_keys:
  assumes "IRCollector_init h dir = Inr c0"
  shows "map_of (data c0) ''hostname'' \<noteq> None" and "map_of (data c0) ''platform'' \<noteq> None"
  using assms by (auto simp: IRCollector_init_def split: option.splits)


lemma demo_host_runs:
  assumes "map_of (data c0) ''hostname'' \<noteq> None" and "map_of (data c0) ''platform'' \<noteq> None"
  shows "\<exists>c written. run_collection demo_host c0 = Inr (c, written)"
  by (rule run_collection_returns)
     (use assms in \<open>auto simp: demo_host_def quiet_host_def cron_dirs_def\<close>)


text \<open>A directory that exists and cannot be listed makes either of them raise.\<close>

lemma collect_scheduled_tasks_raises:
  assumes "is_linux h" and "path_exists h ''/etc/cron.d''" and "listdir h ''/etc/cron.d'' = Inl e"
  shows "collect_scheduled_tasks h c = Inl e"
  using assms
  by (simp add: collect_scheduled_tasks_def scheduled_tasks_def run_command_cases cron_dirs_def
      Let_def)

lemma collect_autostart_raises:
  assumes "is_linux h" and "path_exists h ''/etc/init.d''" and "listdir h ''/etc/init.d'' = Inl e"
  shows "collect_autostart h c = Inl e"
  using assms
  by (simp add: collect_autostart_def autostart_entries_def run_command_cases
      run_command_head_cases Let_def)

text \<open>
  C2 does not hold of \<open>collect_scheduled_tasks\<close>: the directory exists, so
  \<^verbatim>\<open>os.listdir\<close> is called, it raises \<^verbatim>\<open>PermissionError\<close>, and nothing catches it.
  The exception leaves the collector and ends the whole run before anything is written.
  \<open>collect_autostart\<close> lists \<^verbatim>\<open>/etc/init.d\<close> in the same unguarded way.
\<close>

theorem scheduled_tasks_raises_on_unreadable_directory:
  "path_exists locked_cron_host ''/etc/cron.d''
   \<and> listdir locked_cron_host ''/etc/cron.d'' = Inl PermissionError
   \<and> collect_scheduled_tasks locked_cron_host c = Inl PermissionError
   \<and> main_collect locked_cron_host dir = Inl PermissionError"
proof -
  have s: "collect_scheduled_tasks locked_cron_host c' = Inl PermissionError" for c'
    by (simp add: collect_scheduled_tasks_def scheduled_tasks_def is_linux_def run_command_cases
        cron_dirs_def locked_cron_host_def quiet_host_def)
  obtain c0 where 0: "IRCollector_init locked_cron_host dir = Inr c0"
    by (simp add: IRCollector_init_def locked_cron_host_def quiet_host_def)
  obtain c1 where 1: "collect_system_info locked_cron_host c0 = Inr c1" using collect_system_info_returns by blast
  obtain c2 where 2: "collect_processes locked_cron_host c1 = Inr c2" using collect_processes_returns by blast
  obtain c3 where 3: "collect_network locked_cron_host c2 = Inr c3" using collect_network_returns by blast
  obtain c4 where 4: "collect_users locked_cron_host c3 = Inr c4" using collect_users_returns by blast
  from init_has_banner_keys[OF 0] obtain v w where
    g: "getitem (data c0) ''hostname'' = Inr v" "getitem (data c0) ''platform'' = Inr w"
    by (auto simp: getitem_def)
  have "main_collect locked_cron_host dir = Inl PermissionError"
    using 0 g 1 2 3 4 s[of c4]
    by (simp add: main_collect_def run_collection_def run_collectors_def)
  moreover have "path_exists locked_cron_host ''/etc/cron.d''"
    "listdir locked_cron_host ''/etc/cron.d'' = Inl PermissionError"
    by (simp_all add: locked_cron_host_def quiet_host_def)
  ultimately show ?thesis using s by simp
qed

subsection \<open>Each collector stores one fragment\<close>

lemma collect_system_info_eq:
  "collect_system_info h c = Inr c' \<Longrightarrow> \<exists>v. system_info h = Inr v \<and> c' = set_item c ''system_info'' v"
  by (auto simp: collect_system_info_def and_then_Inr_iff)

lemma collect_processes_eq:
  "collect_processes h c = Inr c' \<Longrightarrow>
     \<exists>v. processes_list h = Inr v \<and> c' = set_item c ''processes'' (PList (take 100 v))"
  by (auto simp: collect_processes_def and_then_Inr_iff)

lemma collect_network_eq:
  "collect_network h c = Inr c' \<Longrightarrow>
     \<exists>conns ifaces. connections_list h = Inr conns \<and> get_interfaces h = Inr ifaces \<and>
        c' = set_item c ''network''
               (PDict [(''connections'', PList conns), (''interfaces'', PList ifaces)])"
  by (auto simp: collect_network_def and_then_Inr_iff)

lemma collect_users_eq:
  "collect_users h c = Inr c' \<Longrightarrow>
     \<exists>sessions. c' = set_item c ''users''
               (PDict [(''accounts'', PList (accounts_list h)), (''logged_in'', PList sessions)])"
  by (auto simp: collect_users_def Let_def and_then_Inr_iff)

lemma collect_scheduled_tasks_eq:
  "collect_scheduled_tasks h c = Inr c' \<Longrightarrow>
     \<exists>v. scheduled_tasks h = Inr v \<and> c' = set_item c ''scheduled_tasks'' (PList v)"
  by (auto simp: collect_scheduled_tasks_def and_then_Inr_iff)

lemma collect_autostart_eq:
  "collect_autostart h c = Inr c' \<Longrightarrow>
     \<exists>v. autostart_entries h = Inr v \<and> c' = set_item c ''autostart'' (PList v)"
  by (auto simp: collect_autostart_def and_then_Inr_iff)

lemma collect_recent_files_eq:
  "collect_recent_files h c = Inr c' \<Longrightarrow>
     \<exists>v. recent_list h = Inr v \<and> c' = set_item c ''recent_files'' (PList (take 50 v))"
  by (auto simp: collect_recent_files_def and_then_Inr_iff)

lemma collect_logs_eq:
  "collect_logs h c = Inr c' \<Longrightarrow> \<exists>v. logs_dict h = Inr v \<and> c' = set_item c ''logs'' (PDict v)"
  by (auto simp: collect_logs_def and_then_Inr_iff)







subsection \<open>Truncation bounds\<close>






lemma translate_newlines_cr:
  "c \<noteq> newline \<Longrightarrow> translate_newlines (carriage_return # c # t) = newline # translate_newlines (c # t)"
  by simp




























subsection \<open>Malformed lines\<close>

text \<open>
  A line with too few columns is passed over and the loop goes on: in \<open>collect_users\<close>,
  \<open>collect_processes\<close> and \<open>collect_network\<close>.
\<close>

lemma passwd_loop_short_line:
  "length (split_on CHR '':'' (strip line)) < 7 \<Longrightarrow>
     passwd_loop (line # rest) users = passwd_loop rest users"
  by simp

lemma process_line_malformed:
  "length (split_ws 10 line) < 11 \<Longrightarrow> process_line line processes = processes"
  by (simp add: process_line_def Let_def)

lemma fold_process_line_skips:
  "length (split_ws 10 bad) < 11 \<Longrightarrow>
     fold process_line (before @ bad # after) acc = fold process_line (before @ after) acc"
  by (simp add: process_line_malformed)

lemma connection_line_malformed:
  "length (split_all line) < 5 \<Longrightarrow> connection_line line connections = connections"
  by (simp add: connection_line_def Let_def)

lemma passwd_loop_Cons:
  "passwd_loop (l # ls) users =
     (if length (passwd_fields l) \<ge> 7 then
        (case py_int (passwd_fields l ! 2) of
           Inl e \<Rightarrow> (users, Some e)
         | Inr uid \<Rightarrow>
             passwd_loop ls
               (if uid \<ge> 1000 \<or> uid = 0 then users @ [account_record (passwd_fields l)]
                else users))
      else passwd_loop ls users)"
  unfolding passwd_fields_def by (simp add: Let_def)

text \<open>
  Whatever the file holds, every account in the fragment comes from a line the loop
  keeps: none has a uid between 1 and 999.
\<close>

lemma passwd_loop_only_real_users:
  assumes "r \<in> set (fst (passwd_loop ls users))"
  shows "r \<in> set users \<or>
         (\<exists>l\<in>set ls. r = account_record (passwd_fields l) \<and> keeps_account l)"
  using assms
proof (induction ls arbitrary: users)
  case (Cons l ls)
  show ?case
  proof (cases "length (passwd_fields l) \<ge> 7")
    case False
    then have "passwd_loop (l # ls) users = passwd_loop ls users"
      by (simp add: passwd_fields_def)
    with Cons show ?thesis by auto
  next
    case True
    show ?thesis
    proof (cases "py_int (passwd_fields l ! 2)")
      case (Inl e)
      then have "passwd_loop (l # ls) users = (users, Some e)"
        using True by (simp add: passwd_fields_def)
      with Cons.prems show ?thesis by simp
    next
      case (Inr uid)
      show ?thesis
      proof (cases "uid \<ge> 1000 \<or> uid = 0")
        case keep: True
        then have "passwd_loop (l # ls) users = passwd_loop ls (users @ [account_record (passwd_fields l)])"
          using True Inr by (auto simp: passwd_fields_def)
        with Cons.prems Cons.IH[of "users @ [account_record (passwd_fields l)]"]
        have "r \<in> set users \<or> r = account_record (passwd_fields l) \<or>
               (\<exists>l\<in>set ls. r = account_record (passwd_fields l) \<and> keeps_account l)" by auto
        moreover have "keeps_account l" using True Inr keep by (simp add: keeps_account_def)
        ultimately show ?thesis by auto
      next
        case drop: False
        then have "passwd_loop (l # ls) users = passwd_loop ls users"
          using True Inr by (auto simp: passwd_fields_def)
        with Cons show ?thesis by auto
      qed
    qed
  qed
qed simp

lemma accounts_excludes_system_uids:
  assumes "r \<in> set (accounts_of_passwd text)"
  shows "\<exists>l\<in>set (readlines text). r = account_record (passwd_fields l) \<and> keeps_account l"
  using passwd_loop_only_real_users[of r "readlines text" "[]"] assms
  by (simp add: accounts_of_passwd_def)

text \<open>
  When the uid of every line of seven fields or more is an integer, the fragment is
  exactly the kept lines, in the order of the file.
\<close>

lemma passwd_loop_all_parse:
  assumes "\<And>l. l \<in> set ls \<Longrightarrow> length (passwd_fields l) \<ge> 7 \<Longrightarrow> \<exists>uid. py_int (passwd_fields l ! 2) = Inr uid"
  shows "passwd_loop ls users =
           (users @ map (\<lambda>l. account_record (passwd_fields l)) (filter keeps_account ls), None)"
  using assms
proof (induction ls arbitrary: users)
  case (Cons l ls)
  have ih: "passwd_loop ls us =
           (us @ map (\<lambda>l. account_record (passwd_fields l)) (filter keeps_account ls), None)" for us
    using Cons.IH Cons.prems by simp
  show ?case
  proof (cases "length (passwd_fields l) \<ge> 7")
    case True
    then obtain uid where u: "py_int (passwd_fields l ! 2) = Inr uid" using Cons.prems[of l] by auto
    have k: "keeps_account l \<longleftrightarrow> uid \<ge> 1000 \<or> uid = 0"
      using True u by (simp add: keeps_account_def)
    show ?thesis
      unfolding passwd_loop_Cons using True u k by (simp add: ih)
  next
    case False
    then have "\<not> keeps_account l" by (simp add: keeps_account_def)
    then show ?thesis unfolding passwd_loop_Cons using False by (simp add: ih)
  qed
qed simp

lemma accounts_when_every_uid_parses:
  assumes "\<And>l. l \<in> set (readlines text) \<Longrightarrow> length (passwd_fields l) \<ge> 7 \<Longrightarrow>
             \<exists>uid. py_int (passwd_fields l ! 2) = Inr uid"
  shows "accounts_of_passwd text =
           map (\<lambda>l. account_record (passwd_fields l)) (filter keeps_account (readlines text))"
  using passwd_loop_all_parse[of "readlines text" "[]"] assms
  by (simp add: accounts_of_passwd_def)

text \<open>
  The fragment of a Linux host is what the loop leaves on the text the iteration
  yielded, whether or not the iteration ended with an error of its own.
\<close>

lemma accounts_list_of_text:
  assumes "is_linux h" and "open_read h ''/etc/passwd'' = Inr body"
  shows "accounts_list h = accounts_of_passwd body"
  using assms
  by (simp add: accounts_list_def read_passwd_def accounts_of_passwd_def
      split: prod.splits option.splits)

text \<open>
  C5 fails on the code. The \<^verbatim>\<open>try\<close> of \<open>collect_users\<close> encloses the whole loop, so
  the \<^verbatim>\<open>ValueError\<close> of \<^verbatim>\<open>int('')\<close> on the line \<^verbatim>\<open>+::::::\<close> ends the loop: the
  user that follows, whose uid is 1000 and who is kept when her line stands alone, is
  missing from the fragment.
\<close>

theorem accounts_lost_after_unparsable_uid:
  "open_read nis_host ''/etc/passwd'' =
     Inr ''+::::::\<newline>alice:x:1000:1000::/home/alice:/bin/bash\<newline>''
   \<and> accounts_list nis_host = []
   \<and> accounts_of_passwd ''alice:x:1000:1000::/home/alice:/bin/bash\<newline>'' =
       [PDict [(''username'', PStr ''alice''), (''uid'', PStr ''1000''), (''gid'', PStr ''1000''),
               (''home'', PStr ''/home/alice''), (''shell'', PStr ''/bin/bash'')]]"
proof -
  have "open_read nis_host ''/etc/passwd'' =
     Inr ''+::::::\<newline>alice:x:1000:1000::/home/alice:/bin/bash\<newline>''"
    by (simp add: nis_host_def nis_passwd_def quiet_host_def)
  moreover have "accounts_list nis_host = []"
    by code_simp
  moreover have "accounts_of_passwd ''alice:x:1000:1000::/home/alice:/bin/bash\<newline>'' =
       [PDict [(''username'', PStr ''alice''), (''uid'', PStr ''1000''), (''gid'', PStr ''1000''),
               (''home'', PStr ''/home/alice''), (''shell'', PStr ''/bin/bash'')]]"
    by code_simp
  ultimately show ?thesis by (intro conjI)
qed

text \<open>
  C6 fails on the code, by the same \<^verbatim>\<open>try\<close>. A line of seven fields whose uid is
  not an integer is not passed over alone: every line after it is lost. Without that
  line the same file gives both accounts.
\<close>

theorem unparsable_uid_ends_account_parsing:
  "accounts_of_passwd
     ''root:x:0:0:root:/root:/bin/bash\<newline>svc:x:12a:12:svc:/srv:/bin/sh\<newline>alice:x:1000:1000::/home/alice:/bin/bash\<newline>'' =
     [PDict [(''username'', PStr ''root''), (''uid'', PStr ''0''), (''gid'', PStr ''0''),
             (''home'', PStr ''/root''), (''shell'', PStr ''/bin/bash'')]]
   \<and> accounts_of_passwd
     ''root:x:0:0:root:/root:/bin/bash\<newline>alice:x:1000:1000::/home/alice:/bin/bash\<newline>'' =
     [PDict [(''username'', PStr ''root''), (''uid'', PStr ''0''), (''gid'', PStr ''0''),
             (''home'', PStr ''/root''), (''shell'', PStr ''/bin/bash'')],
      PDict [(''username'', PStr ''alice''), (''uid'', PStr ''1000''), (''gid'', PStr ''1000''),
             (''home'', PStr ''/home/alice''), (''shell'', PStr ''/bin/bash'')]]"
  by code_simp

subsection \<open>Logs\<close>





subsection \<open>What a collector changes\<close>

text \<open>
  C8. In a run that completes, each collector returns the collector object it was given
  with one key set, its own. So at the end each fragment is the value its collector
  stored, every other key (the three metadata keys among them) holds what it held at the
  start, and the output directory is the same. The object handed to \<open>save_results\<close> is
  the one \<open>run_collection\<close> ends with.
\<close>

theorem collectors_write_only_their_own_key:
  assumes "run_collection h c0 = Inr (c8, written)"
  shows "\<exists>c1 c2 c3 c4 c5 c6 c7 v1 v2 v3 v4 v5 v6 v7 v8.
     collect_system_info h c0 = Inr c1 \<and> c1 = set_item c0 ''system_info'' v1 \<and>
     collect_processes h c1 = Inr c2 \<and> c2 = set_item c1 ''processes'' v2 \<and>
     collect_network h c2 = Inr c3 \<and> c3 = set_item c2 ''network'' v3 \<and>
     collect_users h c3 = Inr c4 \<and> c4 = set_item c3 ''users'' v4 \<and>
     collect_scheduled_tasks h c4 = Inr c5 \<and> c5 = set_item c4 ''scheduled_tasks'' v5 \<and>
     collect_autostart h c5 = Inr c6 \<and> c6 = set_item c5 ''autostart'' v6 \<and>
     collect_recent_files h c6 = Inr c7 \<and> c7 = set_item c6 ''recent_files'' v7 \<and>
     collect_logs h c7 = Inr c8 \<and> c8 = set_item c7 ''logs'' v8 \<and>
     save_results h c8 = Inr written \<and>
     map_of (data c8) ''system_info'' = Some v1 \<and>
     map_of (data c8) ''processes'' = Some v2 \<and>
     map_of (data c8) ''network'' = Some v3 \<and>
     map_of (data c8) ''users'' = Some v4 \<and>
     map_of (data c8) ''scheduled_tasks'' = Some v5 \<and>
     map_of (data c8) ''autostart'' = Some v6 \<and>
     map_of (data c8) ''recent_files'' = Some v7 \<and>
     map_of (data c8) ''logs'' = Some v8 \<and>
     (\<forall>k. k \<notin> {''system_info'', ''processes'', ''network'', ''users'', ''scheduled_tasks'',
                 ''autostart'', ''recent_files'', ''logs''} \<longrightarrow>
          map_of (data c8) k = map_of (data c0) k) \<and>
     output_dir c8 = output_dir c0"
proof -
  from assms obtain c1 c2 c3 c4 c5 c6 c7 where
    s: "collect_system_info h c0 = Inr c1" "collect_processes h c1 = Inr c2"
       "collect_network h c2 = Inr c3" "collect_users h c3 = Inr c4"
       "collect_scheduled_tasks h c4 = Inr c5" "collect_autostart h c5 = Inr c6"
       "collect_recent_files h c6 = Inr c7" "collect_logs h c7 = Inr c8"
    and w: "save_results h c8 = Inr written"
    unfolding run_collection_def run_collectors_def and_then_Inr_iff by blast
  from s(1) obtain v1 where 1: "c1 = set_item c0 ''system_info'' v1" using collect_system_info_eq by blast
  from s(2) obtain v2 where 2: "c2 = set_item c1 ''processes'' v2" using collect_processes_eq by blast
  from s(3) obtain v3 where 3: "c3 = set_item c2 ''network'' v3" using collect_network_eq by blast
  from s(4) obtain v4 where 4: "c4 = set_item c3 ''users'' v4" using collect_users_eq by blast
  from s(5) obtain v5 where 5: "c5 = set_item c4 ''scheduled_tasks'' v5" using collect_scheduled_tasks_eq by blast
  from s(6) obtain v6 where 6: "c6 = set_item c5 ''autostart'' v6" using collect_autostart_eq by blast
  from s(7) obtain v7 where 7: "c7 = set_item c6 ''recent_files'' v7" using collect_recent_files_eq by blast
  from s(8) obtain v8 where 8: "c8 = set_item c7 ''logs'' v8" using collect_logs_eq by blast
  have m: "map_of (data c8) ''system_info'' = Some v1"
     "map_of (data c8) ''processes'' = Some v2"
     "map_of (data c8) ''network'' = Some v3"
     "map_of (data c8) ''users'' = Some v4"
     "map_of (data c8) ''scheduled_tasks'' = Some v5"
     "map_of (data c8) ''autostart'' = Some v6"
     "map_of (data c8) ''recent_files'' = Some v7"
     "map_of (data c8) ''logs'' = Some v8"
    unfolding 1 2 3 4 5 6 7 8 by (simp_all add: set_item_def update_conv')
  have f: "\<forall>k. k \<notin> {''system_info'', ''processes'', ''network'', ''users'', ''scheduled_tasks'',
                 ''autostart'', ''recent_files'', ''logs''} \<longrightarrow>
          map_of (data c8) k = map_of (data c0) k"
    unfolding 1 2 3 4 5 6 7 8 by (simp add: set_item_def update_conv')
  have d: "output_dir c8 = output_dir c0"
    unfolding 1 2 3 4 5 6 7 8 by (simp add: set_item_def)
  show ?thesis
    apply (rule exI[of _ c1], rule exI[of _ c2], rule exI[of _ c3], rule exI[of _ c4])
    apply (rule exI[of _ c5], rule exI[of _ c6], rule exI[of _ c7])
    apply (rule exI[of _ v1], rule exI[of _ v2], rule exI[of _ v3], rule exI[of _ v4])
    apply (rule exI[of _ v5], rule exI[of _ v6], rule exI[of _ v7], rule exI[of _ v8])
    using s w m f d 1 2 3 4 5 6 7 8 by (intro conjI) (assumption+)
qed

theorem collectors_write_only_their_own_key_witness:
  "\<exists>c8 written.
     run_collection demo_host fresh_collector = Inr (c8, written) \<and>
     map_of (data c8) ''collection_time'' = Some (PStr ''2024-01-15T10:30:45'') \<and>
     map_of (data c8) ''hostname'' = Some (PStr ''ir-host'') \<and>
     map_of (data c8) ''platform'' = Some (PStr ''Linux'') \<and>
     output_dir c8 = ''./ir_collection''"
proof -
  obtain c8 written where r: "run_collection demo_host fresh_collector = Inr (c8, written)"
    using demo_host_runs[of fresh_collector] by (auto simp: fresh_collector_def)
  note t = collectors_write_only_their_own_key[OF r]
  from t have f: "\<forall>k. k \<notin> {''system_info'', ''processes'', ''network'', ''users'', ''scheduled_tasks'',
                 ''autostart'', ''recent_files'', ''logs''} \<longrightarrow>
          map_of (data c8) k = map_of (data fresh_collector) k"
    by (elim exE conjE) assumption
  from t have d: "output_dir c8 = output_dir fresh_collector"
    by (elim exE conjE) assumption
  have "map_of (data c8) ''collection_time'' = Some (PStr ''2024-01-15T10:30:45'')"
    "map_of (data c8) ''hostname'' = Some (PStr ''ir-host'')"
    "map_of (data c8) ''platform'' = Some (PStr ''Linux'')"
    using f by (simp_all add: fresh_collector_def)
  moreover have "output_dir c8 = ''./ir_collection''" using d by (simp add: fresh_collector_def)
  ultimately show ?thesis using r by blast
qed

subsection \<open>The written text\<close>

text \<open>
  C9. The text \<open>save_results\<close> writes depends on the snapshot alone: neither the host,
  nor its clock, nor the output directory changes it.
\<close>

theorem serialization_depends_only_on_snapshot:
  assumes "save_results h1 c1 = Inr (path1, text1)"
    and "save_results h2 c2 = Inr (path2, text2)"
    and "data c1 = data c2"
  shows "text1 = text2"
  using assms by (auto simp: save_results_def Let_def split: option.splits)

theorem serialization_depends_only_on_snapshot_witness:
  "\<exists>path1 path2 text1 text2.
     save_results quiet_host fresh_collector = Inr (path1, text1) \<and>
     save_results later_host fresh_collector = Inr (path2, text2) \<and>
     path1 \<noteq> path2 \<and> text1 = text2"
proof -
  have 1: "save_results quiet_host fresh_collector =
             Inr (result_path quiet_host fresh_collector, json_encode 0 (PDict (data fresh_collector)))"
    by (simp add: save_results_def quiet_host_def)
  have 2: "save_results later_host fresh_collector =
             Inr (result_path later_host fresh_collector, json_encode 0 (PDict (data fresh_collector)))"
    by (simp add: save_results_def later_host_def quiet_host_def)
  have 3: "result_path quiet_host fresh_collector \<noteq> result_path later_host fresh_collector"
    by code_simp
  from serialization_depends_only_on_snapshot[OF 1 2] 1 2 3 show ?thesis by blast
qed

lemma fresh_collector_json:
  "json_encode 0 (PDict (data fresh_collector)) =
     ''{\<newline>  \"collection_time\": \"2024-01-15T10:30:45\",\<newline>  \"hostname\": \"ir-host\",\<newline>  \"platform\": \"Linux\"\<newline>}''"
  by code_simp

subsection \<open>Interface records\<close>

text \<open>Before the first header line the record being built has no name.\<close>

lemma fold_interface_line_indented:
  assumes "\<And>l. l \<in> set pre \<Longrightarrow> l = [] \<or> startswith l '' ''" and "map_of cur ''name'' = None"
  shows "\<exists>cur'. fold interface_line pre ([], cur) = ([], cur') \<and> map_of cur' ''name'' = None"
  using assms
proof (induction pre arbitrary: cur)
  case (Cons l pre)
  have "l = [] \<or> startswith l '' ''" using Cons.prems(1) by simp
  then have "\<exists>cur1. interface_line l ([], cur) = ([], cur1) \<and> map_of cur1 ''name'' = None"
    using Cons.prems(2) by (auto simp: interface_line_def Let_def update_conv')
  then obtain cur1 where 1: "interface_line l ([], cur) = ([], cur1)" "map_of cur1 ''name'' = None"
    by blast
  from Cons.IH[OF _ 1(2)] Cons.prems(1) obtain cur' where
    "fold interface_line pre ([], cur1) = ([], cur')" "map_of cur' ''name'' = None" by auto
  then show ?case using 1(1) by simp
qed simp

lemma interface_line_inet:
  assumes "startswith l '' ''" and "contains l ''inet ''" and "map_of cur ''name'' = None"
  shows "\<exists>cur'. interface_line l ([], cur) = ([], cur') \<and> map_of cur' ''name'' = None
            \<and> (\<exists>a. map_of cur' ''ipv4'' = Some (PStr a))"
  using assms by (auto simp: interface_line_def Let_def update_conv')

text \<open>
  Once a record with an address and no name is under way or stored first, it stays
  first, and every record stored after it was begun at a header line.
\<close>

lemma fold_interface_line_nameless:
  assumes "map_of rec ''name'' = None" and "\<exists>a. map_of rec ''ipv4'' = Some (PStr a)"
    and "st = ([], rec) \<or>
         (\<exists>more cur. st = (PDict rec # more, cur) \<and> (\<forall>r\<in>set more. has_name r)
                       \<and> map_of cur ''name'' \<noteq> None)"
  shows "\<exists>rec' more. finish_interfaces (fold interface_line ls st) = PDict rec' # more
            \<and> map_of rec' ''name'' = None \<and> (\<exists>a. map_of rec' ''ipv4'' = Some (PStr a))
            \<and> (\<forall>r\<in>set more. has_name r)"
  using assms
proof (induction ls arbitrary: st rec)
  case Nil
  from Nil(3) show ?case
  proof
    assume "st = ([], rec)"
    then show ?thesis using Nil(1,2) by (auto simp: finish_interfaces_def)
  next
    assume "\<exists>more cur. st = (PDict rec # more, cur) \<and> (\<forall>r\<in>set more. has_name r) \<and> map_of cur ''name'' \<noteq> None"
    then show ?thesis using Nil(1,2)
      by (auto simp: finish_interfaces_def has_name_def field_def)
  qed
next
  case (Cons l ls)
  have "\<exists>rec1. map_of rec1 ''name'' = None \<and> (\<exists>a. map_of rec1 ''ipv4'' = Some (PStr a)) \<and>
        (interface_line l st = ([], rec1) \<or>
         (\<exists>more cur. interface_line l st = (PDict rec1 # more, cur) \<and> (\<forall>r\<in>set more. has_name r)
                       \<and> map_of cur ''name'' \<noteq> None))"
    using Cons.prems(3)
  proof
    assume s: "st = ([], rec)"
    have ne: "rec \<noteq> []" using Cons.prems(2) by auto
    show ?thesis
    proof (cases "l \<noteq> [] \<and> \<not> startswith l '' ''")
      case True
      then have "interface_line l st = ([PDict rec], [(''name'', PStr (if length (split_on CHR '':'' l) > 1 then strip (split_on CHR '':'' l ! 1) else []))])"
        using s ne by (simp add: interface_line_def Let_def)
      then show ?thesis using Cons.prems(1,2) by auto
    next
      case False
      then have "interface_line l st = ([], rec) \<or> (\<exists>a. interface_line l st = ([], AList.update ''ipv4'' (PStr a) rec))"
        using s by (auto simp: interface_line_def Let_def)
      then show ?thesis using Cons.prems(1,2) by (auto simp: update_conv')
    qed
  next
    assume "\<exists>more cur. st = (PDict rec # more, cur) \<and> (\<forall>r\<in>set more. has_name r) \<and> map_of cur ''name'' \<noteq> None"
    then obtain more cur where s: "st = (PDict rec # more, cur)" "\<forall>r\<in>set more. has_name r"
      "map_of cur ''name'' \<noteq> None" by blast
    have ne: "cur \<noteq> []" using s(3) by auto
    show ?thesis
    proof (cases "l \<noteq> [] \<and> \<not> startswith l '' ''")
      case True
      then have "interface_line l st = (PDict rec # more @ [PDict cur], [(''name'', PStr (if length (split_on CHR '':'' l) > 1 then strip (split_on CHR '':'' l ! 1) else []))])"
        using s ne by (simp add: interface_line_def Let_def)
      moreover have "\<forall>r\<in>set (more @ [PDict cur]). has_name r"
        using s(2,3) by (auto simp: has_name_def field_def)
      ultimately show ?thesis using Cons.prems(1,2) by auto
    next
      case False
      then have "interface_line l st = (PDict rec # more, cur) \<or> (\<exists>a. interface_line l st = (PDict rec # more, AList.update ''ipv4'' (PStr a) cur))"
        using s by (auto simp: interface_line_def Let_def)
      then show ?thesis using Cons.prems(1,2) s(2,3) by (auto simp: update_conv')
    qed
  qed
  then obtain rec1 where r: "map_of rec1 ''name'' = None" "\<exists>a. map_of rec1 ''ipv4'' = Some (PStr a)"
    "interface_line l st = ([], rec1) \<or>
         (\<exists>more cur. interface_line l st = (PDict rec1 # more, cur) \<and> (\<forall>r\<in>set more. has_name r)
                       \<and> map_of cur ''name'' \<noteq> None)" by blast
  from Cons.IH[OF r] show ?case by simp
qed

text \<open>
  C10. When the output of \<^verbatim>\<open>ip addr show\<close> has an indented line containing
  \<^verbatim>\<open>inet \<close> before any header line, the first record \<open>get_interfaces\<close> returns has
  an \<^verbatim>\<open>ipv4\<close> key and no \<^verbatim>\<open>name\<close> key. Each record after it was begun at a header
  line and has its name.
\<close>

theorem indented_inet_first_gives_nameless_record:
  assumes "is_linux h" and "run_command h ''ip addr show'' = Inr output"
    and "split_on newline output = pre @ line # rest"
    and "\<forall>l\<in>set pre. l = [] \<or> startswith l '' ''"
    and "startswith line '' ''" and "contains line ''inet ''"
  shows "\<exists>rec more. get_interfaces h = Inr (PDict rec # more)
           \<and> map_of rec ''name'' = None \<and> (\<exists>a. map_of rec ''ipv4'' = Some (PStr a))
           \<and> (\<forall>r\<in>set more. has_name r)"
proof -
  have g: "get_interfaces h = Inr (interfaces_of_output output)"
    using assms(1,2) by (simp add: get_interfaces_def)
  from fold_interface_line_indented[of pre "[]"] assms(4) obtain cur0 where
    0: "fold interface_line pre ([], []) = ([], cur0)" "map_of cur0 ''name'' = None" by auto
  from interface_line_inet[OF assms(5,6) 0(2)] obtain cur1 where
    1: "interface_line line ([], cur0) = ([], cur1)" "map_of cur1 ''name'' = None"
       "\<exists>a. map_of cur1 ''ipv4'' = Some (PStr a)" by blast
  have "fold interface_line (split_on newline output) ([], []) = fold interface_line rest ([], cur1)"
    using assms(3) 0(1) 1(1) by simp
  then have "interfaces_of_output output = finish_interfaces (fold interface_line rest ([], cur1))"
    by (simp add: interfaces_of_output_def)
  with fold_interface_line_nameless[OF 1(2,3), of "([], cur1)" rest] g show ?thesis by auto
qed

lemma indented_inet_lines:
  "split_on newline ''    inet 10.0.0.5/24 scope global eth0\<newline>2: eth1: <UP>\<newline>    inet 10.0.1.5/24\<newline>''
     = [] @ ''    inet 10.0.0.5/24 scope global eth0'' # [''2: eth1: <UP>'', ''    inet 10.0.1.5/24'', []]"
  by (simp add: newline_def)

theorem indented_inet_first_gives_nameless_record_witness:
  "\<exists>rec more. get_interfaces indented_inet_host = Inr (PDict rec # more)
           \<and> map_of rec ''name'' = None \<and> (\<exists>a. map_of rec ''ipv4'' = Some (PStr a))"
proof -
  have 1: "is_linux indented_inet_host"
    by (simp add: is_linux_def indented_inet_host_def quiet_host_def)
  have 2: "run_command indented_inet_host ''ip addr show'' =
             Inr ''    inet 10.0.0.5/24 scope global eth0\<newline>2: eth1: <UP>\<newline>    inet 10.0.1.5/24\<newline>''"
    by (simp add: run_command_def subprocess_run_def indented_inet_host_def quiet_host_def
        carriage_return_def)
  have 4: "\<forall>l\<in>set ([]::string list). l = [] \<or> startswith l '' ''" by simp
  have 5: "startswith ''    inet 10.0.0.5/24 scope global eth0'' '' ''" by simp
  have 6: "contains ''    inet 10.0.0.5/24 scope global eth0'' ''inet ''" by simp
  from indented_inet_first_gives_nameless_record[OF 1 2 indented_inet_lines 4 5 6]
  show ?thesis by blast
qed

lemma indented_inet_host_interfaces:
  "get_interfaces indented_inet_host =
     Inr [PDict [(''ipv4'', PStr ''10.0.0.5/24'')],
          PDict [(''name'', PStr ''eth1''), (''ipv4'', PStr ''10.0.1.5/24'')]]"
  by code_simp

subsection \<open>The small machine, evaluated\<close>

text \<open>
  What the collectors compute on \<open>demo_host\<close>: the line \<^verbatim>\<open>ps\<close> cut short, the
  account line of three fields, the system account with uid 1 and the file that is gone
  are left out; the header line of \<^verbatim>\<open>ss\<close> is dropped; the log that exists without
  output has no entry.
\<close>

lemma demo_host_processes:
  "processes_list demo_host =
     Inr [PDict [(''user'', PStr ''root''), (''pid'', PStr ''1''), (''cpu'', PStr ''0.0''),
                 (''mem'', PStr ''0.1''), (''command'', PStr ''/sbin/init splash'')],
          PDict [(''user'', PStr ''bob''), (''pid'', PStr ''7''), (''cpu'', PStr ''0.0''),
                 (''mem'', PStr ''0.1''), (''command'', PStr ''vi a  b'')]]"
  by code_simp

lemma demo_host_connections:
  "connections_list demo_host =
     Inr [PDict [(''proto'', PStr ''tcp''), (''local'', PStr ''0.0.0.0:22''),
                 (''remote'', PStr ''0.0.0.0:*''), (''state'', PStr ''LISTEN'')]]"
  by code_simp

lemma demo_host_interfaces:
  "get_interfaces demo_host =
     Inr [PDict [(''name'', PStr ''lo''), (''ipv4'', PStr ''127.0.0.1/8'')],
          PDict [(''name'', PStr ''eth0'')]]"
  by code_simp

lemma demo_host_accounts:
  "accounts_list demo_host =
     [PDict [(''username'', PStr ''root''), (''uid'', PStr ''0''), (''gid'', PStr ''0''),
             (''home'', PStr ''/root''), (''shell'', PStr ''/bin/bash'')],
      PDict [(''username'', PStr ''alice''), (''uid'', PStr ''1000''), (''gid'', PStr ''1000''),
             (''home'', PStr ''/home/alice''), (''shell'', PStr ''/bin/bash'')]]"
  by code_simp

lemma demo_host_recent:
  "recent_list demo_host =
     Inr [PDict [(''path'', PStr ''/tmp/a''), (''mtime'', PStr ''2024-01-15T09:00:00''),
                 (''size'', PInt 42)]]"
  by code_simp

lemma demo_host_logs:
  "logs_dict demo_host = Inr [(''/var/log/syslog'', PStr ''line\<newline>'')]"
  by code_simp

lemma demo_host_tasks:
  "scheduled_tasks demo_host =
     Inr [PDict [(''type'', PStr ''system_crontab''), (''content'', PStr ''17 * * * * root run-parts\<newline>'')],
          PDict [(''type'', PStr ''/etc/cron.d''), (''files'', PList [PStr ''e2scrub_all''])]]"
  by code_simp

lemma demo_host_autostart:
  "autostart_entries demo_host =
     Inr [PDict [(''type'', PStr ''systemd_enabled''),
                 (''content'', PStr ''UNIT FILE STATE\<newline>ssh.service enabled\<newline>'')],
          PDict [(''type'', PStr ''rc.local''), (''content'', PStr ''exit 0\<newline>'')]]"
  by code_simp

end
